theory Spec2Isabelle
  imports Complex_Main "HOL-Library.Word"
begin

section \<open>Numbers and typed arrays\<close>

text \<open>
  A JavaScript Number is modelled as a real, with \<open>None\<close> standing for NaN (what an
  out-of-range read of an array turns into as soon as it enters arithmetic or is stored
  in a typed array). Arithmetic on finite values is exact real arithmetic: the roundings
  of binary64 operations and of a store into a Float32Array are not part of the model,
  and neither are the infinities. A Float32Array is a list of such values; the samples of
  a channel buffer are finite, so they are the values \<open>Some x\<close>.
\<close>

datatype js_error = RangeError | TypeError | SyntaxError

type_synonym jsnum = "real option"

fun f_add :: "jsnum \<Rightarrow> jsnum \<Rightarrow> jsnum" where
  "f_add (Some x) (Some y) = Some (x + y)"
| "f_add _ _ = None"

fun f_sub :: "jsnum \<Rightarrow> jsnum \<Rightarrow> jsnum" where
  "f_sub (Some x) (Some y) = Some (x - y)"
| "f_sub _ _ = None"

fun f_mul :: "jsnum \<Rightarrow> jsnum \<Rightarrow> jsnum" where
  "f_mul (Some x) (Some y) = Some (x * y)"
| "f_mul _ _ = None"

text \<open>\<open>Math.round\<close>: the nearest integer, a tie going up.\<close>

definition js_round :: "real \<Rightarrow> int" where
  "js_round x = \<lfloor>x + 1 / 2\<rfloor>"

text \<open>
  \<open>a[i]\<close> on a typed array: \<open>undefined\<close> out of range, which is NaN once it is used
  as a number.
\<close>

definition rd :: "jsnum list \<Rightarrow> int \<Rightarrow> jsnum" where
  "rd a i = (if 0 \<le> i \<and> i < int (length a) then a ! nat i else None)"

text \<open>\<open>a[i] = v\<close> on a typed array: a store out of range is ignored.\<close>

definition wr :: "jsnum list \<Rightarrow> int \<Rightarrow> jsnum \<Rightarrow> jsnum list" where
  "wr a i v = (if 0 \<le> i \<and> i < int (length a) then a[nat i := v] else a)"

section \<open>The frame resampler\<close>

text \<open>
  \<open>Math.round(data.length * (16000 / origSampleRate))\<close> followed by
  \<open>new Float32Array(targetLength)\<close>. With \<open>origSampleRate = 0\<close> the quotient is
  Infinity in JavaScript (0 in HOL), so that case is written out: the product is NaN for
  an empty input, which the constructor reads as length 0, and Infinity otherwise, which
  the constructor rejects. A negative length is rejected as well; \<open>Math.round\<close> of a
  value in \<open>[-1/2, 0)\<close> is \<open>-0\<close>, a valid length 0.
\<close>

definition targetLength :: "nat \<Rightarrow> real \<Rightarrow> js_error + int" where
  "targetLength len origSampleRate =
     (if origSampleRate = 0 then (if len = 0 then Inr 0 else Inl RangeError)
      else let t = js_round (real len * (16000 / origSampleRate))
           in if t < 0 then Inl RangeError else Inr t)"

text \<open>
  \<open>(data.length - 1) / (targetLength - 1)\<close>. For \<open>targetLength = 1\<close> JavaScript
  yields Infinity or NaN where HOL yields 0; the loop below does not run then, so the
  value is never read.
\<close>

definition springFactor :: "nat \<Rightarrow> int \<Rightarrow> real" where
  "springFactor len tlen = (real_of_int (int len - 1)) / (real_of_int (tlen - 1))"

text \<open>The value stored at position \<open>i\<close> by one round of the loop.\<close>

definition interpolate :: "jsnum list \<Rightarrow> real \<Rightarrow> int \<Rightarrow> jsnum" where
  "interpolate data sf i =
     (let index = real_of_int i * sf;
          leftIndex = \<lfloor>index\<rfloor>;
          rightIndex = \<lceil>index\<rceil>;
          fraction = index - real_of_int leftIndex
      in f_add (rd data leftIndex)
           (f_mul (f_sub (rd data rightIndex) (rd data leftIndex)) (Some fraction)))"

text \<open>\<open>for (let i = 1; i < targetLength - 1; i++)\<close>, entered at \<open>i\<close>.\<close>

function resample_loop :: "jsnum list \<Rightarrow> real \<Rightarrow> int \<Rightarrow> int \<Rightarrow> jsnum list \<Rightarrow> jsnum list" where
  "resample_loop data sf tlen i resampledData =
     (if i < tlen - 1
      then resample_loop data sf tlen (i + 1) (wr resampledData i (interpolate data sf i))
      else resampledData)"
  by pat_completeness auto
termination
  by (relation "measure (\<lambda>(data, sf, tlen, i, r). nat (tlen - 1 - i))") auto

declare resample_loop.simps [simp del]

definition resampleTo16kHZ :: "jsnum list \<Rightarrow> real \<Rightarrow> js_error + jsnum list" where
  "resampleTo16kHZ audioData origSampleRate =
     (let data = audioData in
      case targetLength (length data) origSampleRate of
        Inl e \<Rightarrow> Inl e
      | Inr tlen \<Rightarrow>
          let resampledData = replicate (nat tlen) (Some 0);
              sf = springFactor (length data) tlen;
              r0 = wr resampledData 0 (rd data 0);
              r1 = wr r0 (tlen - 1) (rd data (int (length data) - 1))
          in Inr (resample_loop data sf tlen 1 r1))"

section \<open>The frame encoder\<close>

text \<open>\<open>Math.max(-1, Math.min(1, x))\<close>; NaN stays NaN.\<close>

definition clamp1 :: "jsnum \<Rightarrow> jsnum" where
  "clamp1 x = (case x of None \<Rightarrow> None | Some v \<Rightarrow> Some (max (- 1) (min 1 v)))"

text \<open>Truncation toward zero.\<close>

definition trunc :: "real \<Rightarrow> int" where
  "trunc x = (if 0 \<le> x then \<lfloor>x\<rfloor> else \<lceil>x\<rceil>)"

text \<open>
  A store into an Int16Array: NaN becomes 0, any other number is truncated toward zero
  and reduced modulo \<open>2 ^ 16\<close> (the conversion into the word wraps).
\<close>

definition toInt16 :: "jsnum \<Rightarrow> 16 word" where
  "toInt16 x = (case x of None \<Rightarrow> 0 | Some v \<Rightarrow> word_of_int (trunc v))"

text \<open>\<open>s < 0 ? s * 0x8000 : s * 0x7FFF\<close>; a comparison with NaN is false.\<close>

definition scale :: "jsnum \<Rightarrow> jsnum" where
  "scale s = (case s of None \<Rightarrow> None
              | Some v \<Rightarrow> if v < 0 then Some (v * 32768) else Some (v * 32767))"

definition encodeSample :: "jsnum \<Rightarrow> 16 word" where
  "encodeSample x = (let s = clamp1 x in toInt16 (scale s))"

definition encodeFrame :: "jsnum list \<Rightarrow> 16 word list" where
  "encodeFrame audioData16kHz = map encodeSample audioData16kHz"

section \<open>Strings\<close>

text \<open>
  A JavaScript string is a sequence of UTF-16 code units. \<open>utf16\<close> embeds an ASCII
  literal.
\<close>

type_synonym jsstring = "16 word list"

definition utf16 :: "string \<Rightarrow> jsstring" where
  "utf16 s = map of_char s"

abbreviation SP :: "16 word" where
  "SP \<equiv> 0x20"

text \<open>
  The code units matched by \<open>\s\<close> in a regular expression, which are also the ones
  removed by \<open>String.prototype.trim\<close>: the white space and line terminator characters
  of ECMAScript.
\<close>

definition is_ws :: "16 word \<Rightarrow> bool" where
  "is_ws c \<longleftrightarrow>
     c \<in> {0x9, 0xA, 0xB, 0xC, 0xD, 0x20, 0xA0, 0x1680, 0x2028, 0x2029, 0x202F, 0x205F,
          0x3000, 0xFEFF}
     \<or> (0x2000 \<le> c \<and> c \<le> 0x200A)"

text \<open>
  \<open>s.replace(/\s+/g, ' ')\<close>: scanning from the left, a white space character starts a
  match that takes the whole run after it (the quantifier is greedy), and the run is
  replaced by one space; any other character is copied.
\<close>

function replace_ws :: "jsstring \<Rightarrow> jsstring" where
  "replace_ws [] = []"
| "replace_ws (c # cs) =
     (if is_ws c then SP # replace_ws (dropWhile is_ws cs) else c # replace_ws cs)"
  by pat_completeness auto
termination
  by (relation "measure length") (auto simp: length_dropWhile_le less_Suc_eq_le)

text \<open>\<open>s.trim()\<close>\<close>

definition trim :: "jsstring \<Rightarrow> jsstring" where
  "trim s = rev (dropWhile is_ws (rev (dropWhile is_ws s)))"

text \<open>\<open>s.replace(/\s+/g, ' ').trim()\<close>\<close>

definition normalize :: "jsstring \<Rightarrow> jsstring" where
  "normalize s = trim (replace_ws s)"

text \<open>\<open>Array.prototype.join\<close>\<close>

fun join :: "jsstring \<Rightarrow> jsstring list \<Rightarrow> jsstring" where
  "join sep [] = []"
| "join sep [x] = x"
| "join sep (x # y # ys) = x @ sep @ join sep (y # ys)"

section \<open>The transcript reconciler\<close>

text \<open>
  What \<open>JSON.parse(event.data)\<close> makes of an inbound message: a syntax error, or a value
  with its \<open>type\<close> (if it is a string) and the \<open>value\<close>s of its \<open>elements\<close>, taken
  to be strings (\<open>None\<close> when there is no \<open>elements\<close> array, on which \<open>.map\<close>
  throws).
\<close>

datatype inbound = Unparsable | Json "jsstring option" "jsstring list option"

text \<open>The variables that the callbacks of one \<open>startRecord\<close> call close over.\<close>

record closure =
  isServerReady :: bool
  completeTranscript :: jsstring
  currentPartial :: jsstring
  audioDataCache :: "jsnum list list"
  sampleRate :: real

text \<open>
  The expression displayed for a partial event:
  \<open>(completeTranscript + ' ' + currentPartial).replace(/\s+/g, ' ').trim()\<close>.
\<close>

definition displayed :: "jsstring \<Rightarrow> jsstring \<Rightarrow> jsstring" where
  "displayed committed pending = normalize (committed @ SP # pending)"

text \<open>
  The body of \<open>socket.onmessage\<close> up to the call of \<open>updateTranscriptionUI\<close>: the new
  values of the closure's variables and the text handed to \<open>updateTranscriptionUI\<close>, if
  any. An exception leaves the variables as they were.
\<close>

definition reconcile :: "inbound \<Rightarrow> closure \<Rightarrow> js_error + (closure \<times> jsstring option)" where
  "reconcile ev c =
     (case ev of
        Unparsable \<Rightarrow> Inl SyntaxError
      | Json ty els \<Rightarrow>
          (case els of
             None \<Rightarrow> Inl TypeError
           | Some vs \<Rightarrow>
               let transcribedText = join [SP] vs in
               if ty = Some (utf16 ''partial'') then
                 let c1 = c\<lparr>currentPartial := trim transcribedText\<rparr>
                 in Inr (c1, Some (displayed (completeTranscript c1) (currentPartial c1)))
               else if ty = Some (utf16 ''final'') then
                 let c1 = c\<lparr>completeTranscript :=
                             normalize (completeTranscript c @ SP # transcribedText)\<rparr>;
                     c2 = c1\<lparr>currentPartial := []\<rparr>
                 in Inr (c2, Some (completeTranscript c2))
               else Inr (c, None)))"

section \<open>The page, the session and the pipeline\<close>

text \<open>
  What the code does to the world outside it, in the order it does it. Sockets, audio
  contexts and nodes are named by the number of the \<open>startRecord\<close> call that created
  them, tracks by a number of their own.
\<close>

datatype effect =
    WindowClose
  | SocketCreate nat
  | AppendCloseButton
  | ContextCreate nat
  | OnAudioProcess nat
  | ConnectGraph nat
  | SocketSend nat "16 word list"
  | SocketClose nat
  | RecorderDisconnect nat
  | MediaStreamDisconnect nat
  | TrackStop nat
  | ContextClose nat
  | Download jsstring jsstring jsstring

text \<open>
  \<open>window.recordingSession\<close>: each member is an object or null. The member \<open>context\<close>
  is named \<open>audioContext\<close> here.
\<close>

record session =
  stream :: "nat list option"
  socket :: "nat option"
  recorder :: "nat option"
  audioContext :: "nat option"
  mediaStream :: "nat option"

text \<open>
  The state of the options page: the session, the closures of the \<open>startRecord\<close>
  calls so far, the text of the element \<open>transcription-container\<close> (\<open>None\<close>: the
  document has no such element), the value stored under \<open>currentTranscription\<close>
  (\<open>None\<close>: nothing stored), and the effects so far.
\<close>

record world =
  recordingSession :: "session option"
  closures :: "closure list"
  container :: "jsstring option"
  currentTranscription :: "jsstring option"
  effects :: "effect list"

definition init_world :: "jsstring option \<Rightarrow> jsstring option \<Rightarrow> world" where
  "init_world page stored =
     \<lparr>recordingSession = None, closures = [], container = page,
      currentTranscription = stored, effects = []\<rparr>"

text \<open>
  \<open>updateTranscriptionUI\<close>. The element is looked up once, into a constant. When it is
  missing, a new one is appended to the document, but the constant is still null and the
  assignment to its \<open>textContent\<close> throws, before the text is stored.
\<close>

definition updateTranscriptionUI :: "jsstring \<Rightarrow> world \<Rightarrow> world \<times> js_error option" where
  "updateTranscriptionUI text w =
     (case container w of
        None \<Rightarrow> (w\<lparr>container := Some []\<rparr>, Some TypeError)
      | Some _ \<Rightarrow> (w\<lparr>container := Some text, currentTranscription := Some text\<rparr>, None))"

text \<open>
  \<open>socket.onmessage\<close> of the \<open>k\<close>-th call. The handler is an async function: an
  exception rejects its promise and goes no further.
\<close>

definition socket_onmessage :: "nat \<Rightarrow> inbound \<Rightarrow> world \<Rightarrow> world" where
  "socket_onmessage k ev w =
     (if k < length (closures w) then
        (case reconcile ev (closures w ! k) of
           Inl e \<Rightarrow> w
         | Inr (c, out) \<Rightarrow>
             let w1 = w\<lparr>closures := (closures w)[k := c]\<rparr>
             in (case out of None \<Rightarrow> w1 | Some text \<Rightarrow> fst (updateTranscriptionUI text w1)))
      else w)"

text \<open>\<open>socket.onopen\<close>\<close>

definition socket_onopen :: "nat \<Rightarrow> world \<Rightarrow> world" where
  "socket_onopen k w =
     (if k < length (closures w)
      then w\<lparr>closures := (closures w)[k := (closures w ! k)\<lparr>isServerReady := True\<rparr>]\<rparr>
      else w)"

text \<open>
  \<open>recorder.onaudioprocess\<close>. The variable \<open>context\<close> is assigned before the handler
  is registered and never again, so \<open>!context\<close> is false. An exception in the resampler
  ends the handler before the frame is cached or sent.
\<close>

definition recorder_onaudioprocess :: "nat \<Rightarrow> jsnum list \<Rightarrow> world \<Rightarrow> world" where
  "recorder_onaudioprocess k inputData w =
     (if k < length (closures w) then
        let c = closures w ! k in
        if \<not> isServerReady c then w
        else (case resampleTo16kHZ inputData (sampleRate c) of
                Inl e \<Rightarrow> w
              | Inr audioData16kHz \<Rightarrow>
                  let audioDataInt16 = encodeFrame audioData16kHz in
                  w\<lparr>closures := (closures w)[k := c\<lparr>audioDataCache := audioDataCache c @ [inputData]\<rparr>],
                    effects := effects w @ [SocketSend k audioDataInt16]\<rparr>)
      else w)"

text \<open>
  \<open>startRecord\<close> from the point where the promise of \<open>captureTabAudio\<close> has
  resolved, with the stream it resolved to (\<open>None\<close>: no stream; otherwise the tracks of
  the stream) and the sample rate that the new audio context will report. The rest of
  the function runs without a break. The platform calls are taken to succeed.
\<close>

definition new_closure :: "real \<Rightarrow> closure" where
  "new_closure rate =
     \<lparr>isServerReady = False, completeTranscript = [], currentPartial = [],
      audioDataCache = [], sampleRate = rate\<rparr>"

definition startRecord :: "nat list option \<Rightarrow> real \<Rightarrow> world \<Rightarrow> world" where
  "startRecord captured rate w =
     (case captured of
        Some tracks \<Rightarrow>
          let k = length (closures w);
              c = new_closure rate;
              s = \<lparr>stream = Some tracks, socket = Some k, recorder = Some k,
                   audioContext = Some k, mediaStream = Some k\<rparr>
          in w\<lparr>recordingSession := Some s,
               closures := closures w @ [c],
               effects := effects w @
                 [SocketCreate k, AppendCloseButton, ContextCreate k, OnAudioProcess k,
                  ConnectGraph k]\<rparr>
      | None \<Rightarrow> w\<lparr>effects := effects w @ [WindowClose]\<rparr>)"

text \<open>
  \<open>downloadTranscription\<close>, with the string that \<open>new Date().toISOString()\<close> returns:
  the file name, the type of the blob and its text.
\<close>

definition timestamp :: "jsstring \<Rightarrow> jsstring" where
  "timestamp isoString = map (\<lambda>c. if c = of_char CHR '':'' \<or> c = of_char CHR ''.'' then of_char CHR ''-'' else c) isoString"

definition downloadTranscription :: "jsstring \<Rightarrow> jsstring \<Rightarrow> effect list" where
  "downloadTranscription text isoString =
     [Download (utf16 ''transcription-'' @ timestamp isoString @ utf16 ''.txt'') (utf16 ''text/plain'') text]"

text \<open>The five guarded releases of \<open>stopRecording\<close>, in the order of the source.\<close>

definition teardown :: "session \<Rightarrow> effect list" where
  "teardown s =
     (case socket s of Some k \<Rightarrow> [SocketClose k] | None \<Rightarrow> [])
     @ (case recorder s of Some k \<Rightarrow> [RecorderDisconnect k] | None \<Rightarrow> [])
     @ (case mediaStream s of Some k \<Rightarrow> [MediaStreamDisconnect k] | None \<Rightarrow> [])
     @ (case stream s of Some tracks \<Rightarrow> map TrackStop tracks | None \<Rightarrow> [])
     @ (case audioContext s of Some k \<Rightarrow> [ContextClose k] | None \<Rightarrow> [])"

text \<open>
  The callback given to \<open>chrome.storage.local.get\<close>: nothing stored, or the empty
  string stored, is falsy, and then nothing is downloaded.
\<close>

definition export :: "jsstring option \<Rightarrow> jsstring \<Rightarrow> effect list" where
  "export stored isoString =
     (case stored of
        None \<Rightarrow> []
      | Some text \<Rightarrow> if text = [] then [] else downloadTranscription text isoString)"

text \<open>
  \<open>stopRecording\<close>, with the time at which the download is named. The storage callback
  is run with the value that is stored when \<open>stopRecording\<close> is called.
\<close>

definition stopRecording :: "jsstring \<Rightarrow> world \<Rightarrow> world" where
  "stopRecording isoString w =
     (case recordingSession w of
        Some s \<Rightarrow>
          w\<lparr>recordingSession := None,
            effects := effects w @ teardown s @ export (currentTranscription w) isoString\<rparr>
      | None \<Rightarrow> w)"

text \<open>
  The callbacks that the event loop runs, one at a time: the two requests of the message
  listener and the callbacks of the \<open>k\<close>-th socket and recorder.
\<close>

datatype event =
    StartCapture "nat list option" real
  | StopCapture jsstring
  | SocketOpen nat
  | SocketMessage nat inbound
  | AudioProcess nat "jsnum list"

fun step :: "event \<Rightarrow> world \<Rightarrow> world" where
  "step (StartCapture captured rate) w = startRecord captured rate w"
| "step (StopCapture isoString) w = stopRecording isoString w"
| "step (SocketOpen k) w = socket_onopen k w"
| "step (SocketMessage k ev) w = socket_onmessage k ev w"
| "step (AudioProcess k inputData) w = recorder_onaudioprocess k inputData w"

definition run :: "event list \<Rightarrow> world \<Rightarrow> world" where
  "run evs w = fold step evs w"

section \<open>The claims in the words of the specification\<close>

text \<open>The ready flag of the \<open>k\<close>-th connection is set.\<close>

definition ready :: "nat \<Rightarrow> world \<Rightarrow> bool" where
  "ready k w \<longleftrightarrow> k < length (closures w) \<and> isServerReady (closures w ! k)"

text \<open>\<open>clamp(s, lo, hi)\<close>\<close>

definition clamp :: "real \<Rightarrow> real \<Rightarrow> real \<Rightarrow> real" where
  "clamp s lo hi = (if s < lo then lo else if hi < s then hi else s)"


section \<open>Properties of the resampler\<close>

lemma length_wr [simp]: "length (wr a i v) = length a"
  by (simp add: wr_def)


lemma length_resample_loop [simp]: "length (resample_loop data sf tlen i r) = length r"
proof (induction data sf tlen i r rule: resample_loop.induct)
  case (1 data sf tlen i r)
  then show ?case by (subst resample_loop.simps) simp
qed










lemma resample_example:
  "resampleTo16kHZ (map Some [1, 2, 3, 4, 5, 6]) 32000 = Inr [Some 1, Some (7 / 2), Some 6]"
  by (simp add: resampleTo16kHZ_def targetLength_def js_round_def springFactor_def wr_def rd_def
      resample_loop.simps interpolate_def Let_def eval_nat_numeral)



section \<open>Properties of the encoder\<close>

lemma sint16: "- 32768 \<le> k \<Longrightarrow> k \<le> 32767 \<Longrightarrow> sint (word_of_int k :: 16 word) = k"
  by (simp add: sint_sbintrunc' signed_take_bit_int_eq_self)

lemma trunc_bounds:
  assumes "- 32768 \<le> x" "x \<le> 32767"
  shows "- 32768 \<le> trunc x \<and> trunc x \<le> 32767"
  using assms unfolding trunc_def
  by (auto simp: le_floor_iff floor_le_iff ceiling_le_iff le_ceiling_iff)

lemma encodeSample_sint:
  "sint (encodeSample (Some s)) = trunc (max (- 1) (min 1 s) * (if s < 0 then 32768 else 32767))"
proof -
  let ?c = "max (- 1) (min 1 s)"
  let ?p = "?c * (if s < 0 then 32768 else 32767)"
  have sc: "scale (clamp1 (Some s)) = Some ?p"
    by (auto simp: scale_def clamp1_def max_def min_def)
  have "- 32768 \<le> ?p \<and> ?p \<le> 32767" by (auto simp: max_def min_def)
  then have "- 32768 \<le> trunc ?p \<and> trunc ?p \<le> 32767" using trunc_bounds by blast
  then show ?thesis unfolding encodeSample_def Let_def sc toInt16_def by (simp add: sint16)
qed

lemma clamp_max_min: "clamp s (- 1) 1 = max (- 1) (min 1 s)"
  by (simp add: clamp_def max_def min_def)

lemma encodeSample_NaN: "encodeSample None = 0"
  by (simp add: encodeSample_def clamp1_def scale_def toInt16_def)

text \<open>
  C2. A finite sample \<open>s\<close> is encoded as the 16-bit signed integer
  \<open>clamp(s, -1, 1) * (32768 if s < 0 else 32767)\<close> truncated toward zero: \<open>-32768\<close>
  below \<open>-1\<close>, \<open>32767\<close> above \<open>1\<close>, and \<open>0\<close>, \<open>32767\<close> and \<open>-32768\<close> at \<open>0\<close>,
  \<open>1\<close> and \<open>-1\<close>.
\<close>

theorem encodeSample_spec:
  "sint (encodeSample (Some s)) = trunc (clamp s (- 1) 1 * (if s < 0 then 32768 else 32767))
   \<and> sint (encodeSample (Some s)) =
       (if s < - 1 then - 32768 else if 1 < s then 32767
        else trunc (s * (if s < 0 then 32768 else 32767)))
   \<and> sint (encodeSample (Some 0)) = 0
   \<and> sint (encodeSample (Some 1)) = 32767
   \<and> sint (encodeSample (Some (- 1))) = - 32768"
proof -
  have a: "sint (encodeSample (Some x)) = trunc (clamp x (- 1) 1 * (if x < 0 then 32768 else 32767))"
    for x
    by (simp only: encodeSample_sint clamp_max_min)
  have b: "trunc (clamp s (- 1) 1 * (if s < 0 then 32768 else 32767)) =
       (if s < - 1 then - 32768 else if 1 < s then 32767
        else trunc (s * (if s < 0 then 32768 else 32767)))"
    by (simp add: clamp_def trunc_def)
  have c: "trunc (clamp 0 (- 1) 1 * (if (0::real) < 0 then 32768 else 32767)) = 0"
    "trunc (clamp 1 (- 1) 1 * (if (1::real) < 0 then 32768 else 32767)) = 32767"
    "trunc (clamp (- 1) (- 1) 1 * (if (- 1::real) < 0 then 32768 else 32767)) = - 32768"
    by (simp_all add: clamp_def trunc_def)
  show ?thesis using a b c by presburger
qed

theorem encodeSample_spec_witness:
  "sint (encodeSample (Some (3 / 2))) = 32767 \<and> sint (encodeSample (Some (- 1 / 3))) = - 10922"
  using encodeSample_spec [of "3 / 2"] encodeSample_spec [of "- 1 / 3"]
  by (simp add: trunc_def)

section \<open>Properties of the pipeline\<close>

lemma SocketSend_notin_teardown: "SocketSend k f \<notin> set (teardown s)"
  by (auto simp: teardown_def split: option.splits)

lemma SocketSend_notin_export: "SocketSend k f \<notin> set (export stored isoString)"
  by (auto simp: export_def downloadTranscription_def split: option.splits)

lemma reconcile_ready:
  "reconcile ev c = Inr (c1, out) \<Longrightarrow> isServerReady c1 = isServerReady c"
  by (auto simp: reconcile_def Let_def split: inbound.splits option.splits if_splits)

lemma updateTranscriptionUI_frame:
  "closures (fst (updateTranscriptionUI text w)) = closures w"
  "effects (fst (updateTranscriptionUI text w)) = effects w"
  "recordingSession (fst (updateTranscriptionUI text w)) = recordingSession w"
  by (simp_all add: updateTranscriptionUI_def split: option.splits)

lemma onmessage_effects: "effects (socket_onmessage k ev w) = effects w"
  by (auto simp: socket_onmessage_def Let_def updateTranscriptionUI_frame split: sum.splits option.splits prod.splits)

lemma onmessage_length: "length (closures (socket_onmessage k ev w)) = length (closures w)"
  by (auto simp: socket_onmessage_def Let_def updateTranscriptionUI_frame split: sum.splits option.splits prod.splits)

lemma onmessage_ready: "ready j (socket_onmessage k ev w) = ready j w"
  by (auto simp: ready_def socket_onmessage_def Let_def updateTranscriptionUI_frame nth_list_update
      dest: reconcile_ready split: sum.splits option.splits prod.splits)

lemma onopen_ready: "ready j (socket_onopen k w) \<longleftrightarrow> ready j w \<or> (j = k \<and> k < length (closures w))"
  by (auto simp: ready_def socket_onopen_def nth_list_update)

lemma onopen_effects: "effects (socket_onopen k w) = effects w"
  by (simp add: socket_onopen_def)

lemma onaudioprocess_ready: "ready j (recorder_onaudioprocess k inputData w) = ready j w"
  by (auto simp: ready_def recorder_onaudioprocess_def Let_def nth_list_update split: sum.splits)

lemma onaudioprocess_effects:
  "set (effects (recorder_onaudioprocess k inputData w)) \<subseteq>
     set (effects w) \<union> (if ready k w then {e. \<exists>f. e = SocketSend k f} else {})"
  by (auto simp: ready_def recorder_onaudioprocess_def Let_def split: sum.splits)

lemma onaudioprocess_not_ready: "\<not> ready k w \<Longrightarrow> recorder_onaudioprocess k inputData w = w"
  by (auto simp: ready_def recorder_onaudioprocess_def Let_def)

lemma startRecord_ready: "ready j (startRecord captured rate w) = ready j w"
  by (auto simp: ready_def startRecord_def new_closure_def Let_def nth_append split: option.splits)

lemma startRecord_send:
  "SocketSend k f \<in> set (effects (startRecord captured rate w)) \<longleftrightarrow> SocketSend k f \<in> set (effects w)"
  by (auto simp: startRecord_def new_closure_def Let_def split: option.splits)

lemma stopRecording_ready: "ready j (stopRecording isoString w) = ready j w"
  by (auto simp: ready_def stopRecording_def split: option.splits)

lemma stopRecording_send:
  "SocketSend k f \<in> set (effects (stopRecording isoString w)) \<longleftrightarrow> SocketSend k f \<in> set (effects w)"
  by (auto simp: stopRecording_def SocketSend_notin_teardown SocketSend_notin_export split: option.splits)

lemma step_ready: "ready k (step e w) \<Longrightarrow> \<not> ready k w \<Longrightarrow> e = SocketOpen k"
  by (cases e) (auto simp: startRecord_ready stopRecording_ready onopen_ready onmessage_ready onaudioprocess_ready)

lemma step_send:
  "SocketSend k f \<in> set (effects (step e w)) \<Longrightarrow> SocketSend k f \<in> set (effects w) \<or> ready k w"
proof (cases e)
  case (AudioProcess j inputData)
  assume "SocketSend k f \<in> set (effects (step e w))"
  then show ?thesis using onaudioprocess_effects [of j inputData w] AudioProcess
    by (auto split: if_splits)
qed (auto simp: startRecord_send stopRecording_send onopen_effects onmessage_effects)

lemma run_snoc: "run (evs @ [e]) w = step e (run evs w)"
  by (simp add: run_def)

lemma run_invariant:
  "(\<forall>k. ready k (run evs (init_world page stored)) \<longrightarrow> SocketOpen k \<in> set evs) \<and>
   (\<forall>k f. SocketSend k f \<in> set (effects (run evs (init_world page stored))) \<longrightarrow> SocketOpen k \<in> set evs)"
proof (induction evs rule: rev_induct)
  case Nil
  show ?case by (simp add: run_def init_world_def ready_def)
next
  case (snoc e evs)
  let ?w = "run evs (init_world page stored)"
  have r: "SocketOpen k \<in> set (evs @ [e])" if "ready k (step e ?w)" for k
  proof (cases "ready k ?w")
    case True
    then show ?thesis using snoc by simp
  next
    case False
    then show ?thesis using step_ready [OF that] by simp
  qed
  have s: "SocketOpen k \<in> set (evs @ [e])" if "SocketSend k f \<in> set (effects (step e ?w))" for k f
    using step_send [OF that] snoc by auto
  show ?case unfolding run_snoc using r s by blast
qed

text \<open>
  C4. Along every run of the pipeline from its initial state, a frame is sent on the
  \<open>k\<close>-th connection only after that connection has signalled open; the ready flag of a
  connection is set by its open callback and by nothing else; an audio-processing
  callback that fires while the connection is not ready leaves the whole state as it
  was, so nothing is sent and nothing is cached; and a step sends a frame only in a
  state where the connection is ready.
\<close>

theorem no_send_before_open:
  "(\<forall>k f. SocketSend k f \<in> set (effects (run evs (init_world page stored))) \<longrightarrow> SocketOpen k \<in> set evs)
   \<and> (ready k (step e w) \<and> \<not> ready k w \<longrightarrow> e = SocketOpen k)
   \<and> (\<not> ready k w \<longrightarrow> recorder_onaudioprocess k inputData w = w)
   \<and> (SocketSend k f \<in> set (effects (step e' w')) \<and> SocketSend k f \<notin> set (effects w')
        \<longrightarrow> ready k w')"
  using run_invariant [of evs page stored] step_ready [of k e w]
    onaudioprocess_not_ready [of k w inputData] step_send [of k f e' w']
  by blast

lemmas evals = run_def init_world_def startRecord_def new_closure_def stopRecording_def socket_onopen_def socket_onmessage_def
   recorder_onaudioprocess_def teardown_def export_def downloadTranscription_def ready_def Let_def

lemma ex1: "effects (run [StartCapture (Some [7]) 32000, SocketOpen 0, AudioProcess 0 [Some (1/2), Some (- 1)]]
           (init_world None None)) =
       [SocketCreate 0, AppendCloseButton, ContextCreate 0, OnAudioProcess 0, ConnectGraph 0, SocketSend 0 [- 32768]]"
  by (simp add: evals resampleTo16kHZ_def targetLength_def js_round_def springFactor_def wr_def rd_def
      resample_loop.simps interpolate_def encodeFrame_def encodeSample_def clamp1_def scale_def toInt16_def trunc_def)

theorem no_send_before_open_witness:
  "SocketSend 0 [- 32768] \<in> set (effects (run [StartCapture (Some [7]) 32000, SocketOpen 0,
        AudioProcess 0 [Some (1 / 2), Some (- 1)]] (init_world None None)))
   \<and> SocketOpen 0 \<in> set [StartCapture (Some [7]) 32000, SocketOpen 0, AudioProcess 0 [Some (1 / 2), Some (- 1)]]
   \<and> ready 0 (step (SocketOpen 0) (startRecord (Some [7]) 32000 (init_world None None)))
   \<and> \<not> ready 0 (startRecord (Some [7]) 32000 (init_world None None))
   \<and> recorder_onaudioprocess 0 [Some (1 / 2), Some (- 1)] (startRecord (Some [7]) 32000 (init_world None None))
       = startRecord (Some [7]) 32000 (init_world None None)
   \<and> SocketSend 0 [- 32768] \<in> set (effects (step (AudioProcess 0 [Some (1 / 2), Some (- 1)])
         (run [StartCapture (Some [7]) 32000, SocketOpen 0] (init_world None None))))
   \<and> SocketSend 0 [- 32768] \<notin> set (effects (run [StartCapture (Some [7]) 32000, SocketOpen 0] (init_world None None)))
   \<and> ready 0 (run [StartCapture (Some [7]) 32000, SocketOpen 0] (init_world None None))"
proof -
  have r: "step (AudioProcess 0 [Some (1 / 2), Some (- 1)])
         (run [StartCapture (Some [7]) 32000, SocketOpen 0] (init_world None None))
       = run [StartCapture (Some [7]) 32000, SocketOpen 0,
        AudioProcess 0 [Some (1 / 2), Some (- 1)]] (init_world None None)"
    by (simp add: run_def)
  have n: "SocketSend 0 [- 32768] \<notin> set (effects (run [StartCapture (Some [7]) 32000, SocketOpen 0] (init_world None None)))"
    by (simp add: run_def init_world_def startRecord_def new_closure_def socket_onopen_def Let_def)
  show ?thesis
    using no_send_before_open [of "[StartCapture (Some [7]) 32000, SocketOpen 0,
        AudioProcess 0 [Some (1 / 2), Some (- 1)]]" None None 0 "SocketOpen 0"
        "startRecord (Some [7]) 32000 (init_world None None)" "[Some (1 / 2), Some (- 1)]"
        "[- 32768]" "AudioProcess 0 [Some (1 / 2), Some (- 1)]"
        "run [StartCapture (Some [7]) 32000, SocketOpen 0] (init_world None None)"]
      ex1 n
    unfolding r
    by (simp add: init_world_def startRecord_def new_closure_def socket_onopen_def ready_def Let_def)
qed

text \<open>
  C7. When the capture gives no stream, \<open>startRecord\<close> closes the window and does
  nothing else: the session is as before, no closure (and so no socket and no
  audio-processing callback) is created, and the only effect is the closing of the
  window.
\<close>

theorem capture_unavailable:
  "startRecord None rate w = w\<lparr>effects := effects w @ [WindowClose]\<rparr>
   \<and> recordingSession (startRecord None rate w) = recordingSession w
   \<and> closures (startRecord None rate w) = closures w
   \<and> effects (startRecord None rate w) = effects w @ [WindowClose]
   \<and> run [StartCapture None rate] (init_world page stored) =
       \<lparr>recordingSession = None, closures = [], container = page, currentTranscription = stored,
        effects = [WindowClose]\<rparr>"
  by (simp add: startRecord_def new_closure_def run_def init_world_def)

text \<open>
  C10. \<open>stopRecording\<close> without a session changes nothing; \<open>stopRecording\<close> always
  leaves no session, so a second stop right after a first changes nothing.
\<close>

theorem stop_idempotent:
  "(recordingSession w = None \<longrightarrow> stopRecording isoString w = w)
   \<and> recordingSession (stopRecording isoString w) = None
   \<and> stopRecording isoString' (stopRecording isoString w) = stopRecording isoString w"
  by (auto simp: stopRecording_def split: option.splits)

theorem stop_idempotent_witness:
  "recordingSession (init_world None None) = None
   \<and> stopRecording (utf16 ''2024-01-02T03:04:05.678Z'') (init_world None None) = init_world None None"
  using stop_idempotent [of "init_world None None" "utf16 ''2024-01-02T03:04:05.678Z''"]
  by (simp add: init_world_def)

text \<open>
  C5. Whatever members the session has, \<open>stopRecording\<close> clears the session and
  performs the release of every member that is present: the socket is closed, the
  recorder and the media stream node are disconnected, every track of the stream is
  stopped, and the audio context is closed. In particular a stop right after a start,
  before the connection is ready, stops every track of the captured stream.
\<close>

theorem stop_releases_all:
  "(recordingSession w = Some s \<longrightarrow>
      recordingSession (stopRecording isoString w) = None
      \<and> effects (stopRecording isoString w)
          = effects w @ teardown s @ export (currentTranscription w) isoString
      \<and> (\<forall>k. socket s = Some k \<longrightarrow> SocketClose k \<in> set (teardown s))
      \<and> (\<forall>k. recorder s = Some k \<longrightarrow> RecorderDisconnect k \<in> set (teardown s))
      \<and> (\<forall>k. mediaStream s = Some k \<longrightarrow> MediaStreamDisconnect k \<in> set (teardown s))
      \<and> (\<forall>tracks t. stream s = Some tracks \<and> t \<in> set tracks \<longrightarrow> TrackStop t \<in> set (teardown s))
      \<and> (\<forall>k. audioContext s = Some k \<longrightarrow> ContextClose k \<in> set (teardown s)))
   \<and> (\<forall>t \<in> set tracks.
         TrackStop t \<in> set (effects (stopRecording isoString (startRecord (Some tracks) rate w'))))
   \<and> \<not> ready (length (closures w')) (startRecord (Some tracks) rate w')
   \<and> recordingSession (stopRecording isoString (startRecord (Some tracks) rate w')) = None"
  by (auto simp: stopRecording_def teardown_def startRecord_def new_closure_def ready_def Let_def split: option.splits)

theorem stop_releases_all_witness:
  "recordingSession ((init_world None None)\<lparr>recordingSession :=
       Some \<lparr>stream = Some [3, 4], socket = Some 0, recorder = None, audioContext = None, mediaStream = None\<rparr>\<rparr>)
     = Some \<lparr>stream = Some [3, 4], socket = Some 0, recorder = None, audioContext = None, mediaStream = None\<rparr>
   \<and> effects (stopRecording [] ((init_world None None)\<lparr>recordingSession :=
       Some \<lparr>stream = Some [3, 4], socket = Some 0, recorder = None, audioContext = None, mediaStream = None\<rparr>\<rparr>))
     = [SocketClose 0, TrackStop 3, TrackStop 4]
   \<and> (7::nat) \<in> set [7]
   \<and> TrackStop 7 \<in> set (effects (stopRecording [] (startRecord (Some [7]) 44100 (init_world None None))))"
  using stop_releases_all [of "(init_world None None)\<lparr>recordingSession :=
       Some \<lparr>stream = Some [3, 4], socket = Some 0, recorder = None, audioContext = None, mediaStream = None\<rparr>\<rparr>"
       "\<lparr>stream = Some [3, 4], socket = Some 0, recorder = None, audioContext = None, mediaStream = None\<rparr>"
       "[]" "[7]" 44100 "init_world None None"]
  by (simp add: init_world_def teardown_def export_def)

lemma Download_notin_teardown: "Download f ty text \<notin> set (teardown s)"
  by (auto simp: teardown_def split: option.splits)

lemma timestamp_no_colon_dot:
  "of_char CHR '':'' \<notin> set (timestamp isoString) \<and> of_char CHR ''.'' \<notin> set (timestamp isoString)"
  by (auto simp: timestamp_def)

text \<open>
  C8, as amended. On a stop with an active session, after the releases, the stored
  transcript is downloaded if there is one and it is not empty, as a \<open>text/plain\<close> blob
  named \<open>transcription-\<close>, the time stamp and \<open>.txt\<close>, where the time stamp is the ISO
  string with every colon and dot replaced by a dash; otherwise nothing is downloaded.
\<close>

theorem stop_exports:
  "recordingSession w = Some s \<longrightarrow>
     effects (stopRecording isoString w) =
       effects w @ teardown s @
         (case currentTranscription w of
            None \<Rightarrow> []
          | Some text \<Rightarrow>
              if text = [] then []
              else [Download (utf16 ''transcription-'' @ timestamp isoString @ utf16 ''.txt'')
                      (utf16 ''text/plain'') text])
     \<and> (\<forall>f ty text. Download f ty text \<notin> set (teardown s))
     \<and> length (timestamp isoString) = length isoString
     \<and> (\<forall>i < length isoString.
           timestamp isoString ! i =
             (if isoString ! i = of_char CHR '':'' \<or> isoString ! i = of_char CHR ''.''
              then of_char CHR ''-'' else isoString ! i))"
  by (auto simp: stopRecording_def export_def downloadTranscription_def Download_notin_teardown
      timestamp_def split: option.splits)

lemma ex2:
  "effects (run [StartCapture (Some [7]) 44100, SocketOpen 0,
                 SocketMessage 0 (Json (Some (utf16 ''final'')) (Some [utf16 ''hi'', utf16 ''there''])),
                 StopCapture (utf16 ''2024-01-02T03:04:05.678Z'')] (init_world (Some []) None))
   = [SocketCreate 0, AppendCloseButton, ContextCreate 0, OnAudioProcess 0, ConnectGraph 0,
      SocketClose 0, RecorderDisconnect 0, MediaStreamDisconnect 0, TrackStop 7, ContextClose 0,
      Download (utf16 ''transcription-2024-01-02T03-04-05-678Z.txt'') (utf16 ''text/plain'') (utf16 ''hi there'')]"
  by (simp add: evals reconcile_def updateTranscriptionUI_def normalize_def trim_def is_ws_def utf16_def timestamp_def)

theorem stop_exports_witness:
  "recordingSession \<lparr>recordingSession = Some \<lparr>stream = Some [7], socket = Some 0, recorder = Some 0,
        audioContext = Some 0, mediaStream = Some 0\<rparr>, closures = [], container = Some (utf16 ''hi''),
        currentTranscription = Some (utf16 ''hi''), effects = []\<rparr>
    = Some \<lparr>stream = Some [7], socket = Some 0, recorder = Some 0, audioContext = Some 0, mediaStream = Some 0\<rparr>
   \<and> effects (stopRecording (utf16 ''2024-01-02T03:04:05.678Z'')
        \<lparr>recordingSession = Some \<lparr>stream = Some [7], socket = Some 0, recorder = Some 0,
        audioContext = Some 0, mediaStream = Some 0\<rparr>, closures = [], container = Some (utf16 ''hi''),
        currentTranscription = Some (utf16 ''hi''), effects = []\<rparr>)
    = [SocketClose 0, RecorderDisconnect 0, MediaStreamDisconnect 0, TrackStop 7, ContextClose 0,
       Download (utf16 ''transcription-2024-01-02T03-04-05-678Z.txt'') (utf16 ''text/plain'') (utf16 ''hi'')]"
  using stop_exports [of "\<lparr>recordingSession = Some \<lparr>stream = Some [7], socket = Some 0, recorder = Some 0,
        audioContext = Some 0, mediaStream = Some 0\<rparr>, closures = [], container = Some (utf16 ''hi''),
        currentTranscription = Some (utf16 ''hi''), effects = []\<rparr>"
      "\<lparr>stream = Some [7], socket = Some 0, recorder = Some 0, audioContext = Some 0, mediaStream = Some 0\<rparr>"
      "utf16 ''2024-01-02T03:04:05.678Z''"]
  by (simp add: teardown_def utf16_def timestamp_def)

text \<open>
  C8 as stated fails: after a final event without elements the stored transcript is the
  empty string, and the stop that follows releases the session and downloads nothing.
  Nor does a stop right after a start when nothing has been stored yet.
\<close>

theorem stop_exports_counterexample:
  "recordingSession (run [StartCapture (Some [7]) 44100, SocketOpen 0,
                 SocketMessage 0 (Json (Some (utf16 ''final'')) (Some []))] (init_world (Some []) None))
     = Some \<lparr>stream = Some [7], socket = Some 0, recorder = Some 0, audioContext = Some 0, mediaStream = Some 0\<rparr>
   \<and> currentTranscription (run [StartCapture (Some [7]) 44100, SocketOpen 0,
                 SocketMessage 0 (Json (Some (utf16 ''final'')) (Some []))] (init_world (Some []) None))
     = Some []
   \<and> effects (run [StartCapture (Some [7]) 44100, SocketOpen 0,
                 SocketMessage 0 (Json (Some (utf16 ''final'')) (Some [])),
                 StopCapture (utf16 ''2024-01-02T03:04:05.678Z'')] (init_world (Some []) None))
     = [SocketCreate 0, AppendCloseButton, ContextCreate 0, OnAudioProcess 0, ConnectGraph 0,
        SocketClose 0, RecorderDisconnect 0, MediaStreamDisconnect 0, TrackStop 7, ContextClose 0]
   \<and> effects (run [StartCapture (Some [7]) 44100,
                 StopCapture (utf16 ''2024-01-02T03:04:05.678Z'')] (init_world None None))
     = [SocketCreate 0, AppendCloseButton, ContextCreate 0, OnAudioProcess 0, ConnectGraph 0,
        SocketClose 0, RecorderDisconnect 0, MediaStreamDisconnect 0, TrackStop 7, ContextClose 0]"
  by (simp add: evals reconcile_def updateTranscriptionUI_def normalize_def trim_def is_ws_def utf16_def)

section \<open>Properties of the white space normalisation\<close>

lemma is_ws_SP [simp]: "is_ws SP"
  by (simp add: is_ws_def)

lemma replace_ws_start:
  assumes "dropWhile is_ws s = s"
  shows "dropWhile is_ws (replace_ws s) = replace_ws s"
proof -
  from assms have "s = [] \<or> \<not> is_ws (hd s)" by (simp only: dropWhile_eq_self_iff)
  then show ?thesis by (cases s) auto
qed

lemma replace_ws_idem: "replace_ws (replace_ws s) = replace_ws s"
proof (induction s rule: replace_ws.induct)
  case 1
  show ?case by simp
next
  case (2 c cs)
  show ?case
  proof (cases "is_ws c")
    case True
    have "dropWhile is_ws (replace_ws (dropWhile is_ws cs)) = replace_ws (dropWhile is_ws cs)"
      by (rule replace_ws_start) simp
    then show ?thesis using True 2 by simp
  next
    case False
    then show ?thesis using 2 by simp
  qed
qed

lemma fix_tail:
  assumes "replace_ws (c # cs) = c # cs"
  shows "replace_ws cs = cs"
proof (cases "is_ws c")
  case True
  then have eq: "replace_ws (dropWhile is_ws cs) = cs" using assms by simp
  have "dropWhile is_ws (replace_ws (dropWhile is_ws cs)) = replace_ws (dropWhile is_ws cs)"
    by (rule replace_ws_start) simp
  then have "dropWhile is_ws cs = cs" unfolding eq .
  then show ?thesis using eq by simp
next
  case False
  then show ?thesis using assms by simp
qed

lemma fix_dropWhile:
  "replace_ws s = s \<Longrightarrow> replace_ws (dropWhile is_ws s) = dropWhile is_ws s"
proof (induction s)
  case Nil
  show ?case by simp
next
  case (Cons c cs)
  have "replace_ws cs = cs" using Cons.prems by (rule fix_tail)
  then show ?case using Cons by simp
qed

lemma fix_prefix:
  "replace_ws (xs @ ys) = xs @ ys \<Longrightarrow> replace_ws xs = xs"
proof (induction xs)
  case Nil
  show ?case by simp
next
  case (Cons c xs)
  have t: "replace_ws (xs @ ys) = xs @ ys"
    using Cons.prems fix_tail [of c "xs @ ys"] by simp
  then have ih: "replace_ws xs = xs" by (rule Cons.IH)
  show ?case
  proof (cases "is_ws c")
    case False
    then show ?thesis using ih by simp
  next
    case True
    then have c: "c = SP" and eq: "replace_ws (dropWhile is_ws (xs @ ys)) = xs @ ys"
      using Cons.prems by simp_all
    have "dropWhile is_ws (replace_ws (dropWhile is_ws (xs @ ys))) = replace_ws (dropWhile is_ws (xs @ ys))"
      by (rule replace_ws_start) simp
    then have "dropWhile is_ws (xs @ ys) = xs @ ys" unfolding eq .
    then have "xs @ ys = [] \<or> \<not> is_ws (hd (xs @ ys))" by (simp only: dropWhile_eq_self_iff)
    then have "dropWhile is_ws xs = xs"
      by (cases xs) auto
    then show ?thesis using True c ih by simp
  qed
qed

lemma rev_dropWhile_prefix: "\<exists>zs. t = rev (dropWhile P (rev t)) @ zs"
proof -
  have "rev (takeWhile P (rev t) @ dropWhile P (rev t)) = t" by simp
  moreover have "rev (takeWhile P (rev t) @ dropWhile P (rev t))
      = rev (dropWhile P (rev t)) @ rev (takeWhile P (rev t))"
    by (rule rev_append)
  ultimately have "t = rev (dropWhile P (rev t)) @ rev (takeWhile P (rev t))" by simp
  then show ?thesis by blast
qed

lemma trim_prefix: "\<exists>zs. dropWhile is_ws t = trim t @ zs"
  unfolding trim_def by (rule rev_dropWhile_prefix)

lemma normalize_fix: "replace_ws (normalize z) = normalize z"
proof -
  have "replace_ws (dropWhile is_ws (replace_ws z)) = dropWhile is_ws (replace_ws z)"
    by (rule fix_dropWhile) (rule replace_ws_idem)
  moreover obtain zs where "dropWhile is_ws (replace_ws z) = trim (replace_ws z) @ zs"
    using trim_prefix by blast
  ultimately show ?thesis unfolding normalize_def using fix_prefix by metis
qed

lemma trim_last: "trim t \<noteq> [] \<Longrightarrow> \<not> is_ws (last (trim t))"
  unfolding trim_def using hd_dropWhile [of is_ws "rev (dropWhile is_ws t)"]
  by (simp add: last_rev)

lemma trim_hd: "trim t \<noteq> [] \<Longrightarrow> \<not> is_ws (hd (trim t))"
proof -
  assume ne: "trim t \<noteq> []"
  obtain zs where z: "dropWhile is_ws t = trim t @ zs" using trim_prefix by blast
  then have "dropWhile is_ws t \<noteq> []" using ne by simp
  then have "\<not> is_ws (hd (dropWhile is_ws t))" by (rule hd_dropWhile)
  then show ?thesis using z ne by simp
qed

lemma replace_ws_append:
  "xs \<noteq> [] \<Longrightarrow> \<not> is_ws (last xs) \<Longrightarrow> replace_ws (xs @ ys) = replace_ws xs @ replace_ws ys"
proof (induction xs rule: replace_ws.induct)
  case 1
  then show ?case by simp
next
  case (2 c cs)
  show ?case
  proof (cases "is_ws c")
    case False
    show ?thesis
    proof (cases "cs = []")
      case True
      then show ?thesis using False by simp
    next
      case ne: False
      then show ?thesis using False 2 by simp
    qed
  next
    case True
    then have ne: "cs \<noteq> []" using "2.prems" by auto
    then have l: "\<not> is_ws (last cs)" using "2.prems" by simp
    have m: "last cs \<in> set cs" using ne by simp
    have d1: "dropWhile is_ws (cs @ ys) = dropWhile is_ws cs @ ys"
      using m l by (rule dropWhile_append1)
    have d2: "dropWhile is_ws cs \<noteq> []" using m l by auto
    have "cs = takeWhile is_ws cs @ dropWhile is_ws cs" by simp
    then have "last cs = last (takeWhile is_ws cs @ dropWhile is_ws cs)" by simp
    also have "\<dots> = last (dropWhile is_ws cs)" using d2 by (rule last_appendR)
    finally have d3: "\<not> is_ws (last (dropWhile is_ws cs))" using l by simp
    have "replace_ws (dropWhile is_ws cs @ ys) = replace_ws (dropWhile is_ws cs) @ replace_ws ys"
      using "2.IH"(1) [OF True d2 d3] .
    then show ?thesis using True d1 by simp
  qed
qed

lemma trim_append_clean:
  assumes "y \<noteq> []" "\<not> is_ws (hd y)" "\<not> is_ws (last y)"
  shows "\<exists>zs. trim (y @ r) = y @ zs \<and> ((\<forall>x \<in> set r. is_ws x) \<longrightarrow> zs = [])"
proof -
  have a: "dropWhile is_ws (y @ r) = y @ r"
    using assms by (cases y) auto
  have b: "dropWhile is_ws (rev y) = rev y"
    using assms by (simp add: dropWhile_eq_self_iff hd_rev)
  show ?thesis
  proof (cases "\<forall>x \<in> set r. is_ws x")
    case True
    then have "dropWhile is_ws (rev r @ rev y) = rev y"
      using b by (simp add: dropWhile_append)
    then show ?thesis using a True by (simp add: trim_def)
  next
    case False
    then have "dropWhile is_ws (rev r @ rev y) = dropWhile is_ws (rev r) @ rev y"
      by (auto simp: dropWhile_append)
    then show ?thesis using a False by (simp add: trim_def)
  qed
qed

lemma normalize_append:
  assumes fx: "replace_ws y = y" and ne: "y \<noteq> []"
    and h: "\<not> is_ws (hd y)" and l: "\<not> is_ws (last y)"
  shows "\<exists>zs. normalize (y @ SP # t) = y @ zs" and "normalize (y @ [SP]) = y"
proof -
  have r: "replace_ws (y @ SP # t) = y @ replace_ws (SP # t)" for t
    using replace_ws_append [OF ne l] fx by simp
  show "\<exists>zs. normalize (y @ SP # t) = y @ zs"
    unfolding normalize_def r using trim_append_clean [OF ne h l] by blast
  have "replace_ws (y @ [SP]) = y @ [SP]" using r [of "[]"] by simp
  then show "normalize (y @ [SP]) = y"
    unfolding normalize_def using trim_append_clean [OF ne h l, of "[SP]"] by auto
qed

lemma normalize_Nil_SP: "normalize ([] @ SP # []) = []"
  by (simp add: normalize_def trim_def)

lemma normalize_normalize_SP: "normalize (normalize z @ [SP]) = normalize z"
proof (cases "normalize z = []")
  case True
  then show ?thesis using normalize_Nil_SP by simp
next
  case False
  then have "trim (replace_ws z) \<noteq> []" by (simp add: normalize_def)
  then have "\<not> is_ws (hd (normalize z))" "\<not> is_ws (last (normalize z))"
    unfolding normalize_def by (rule trim_hd, rule trim_last)
  then show ?thesis using normalize_append(2) [OF normalize_fix False] by blast
qed

lemma normalize_extends:
  "\<exists>zs. normalize (normalize z @ SP # t) = normalize z @ zs"
proof (cases "normalize z = []")
  case True
  then show ?thesis by simp
next
  case False
  then have "trim (replace_ws z) \<noteq> []" by (simp add: normalize_def)
  then have "\<not> is_ws (hd (normalize z))" "\<not> is_ws (last (normalize z))"
    unfolding normalize_def by (rule trim_hd, rule trim_last)
  then show ?thesis using normalize_append(1) [OF normalize_fix False] by blast
qed

lemma trim_normalize: "trim (normalize z) = normalize z"
proof (cases "normalize z = []")
  case True
  then show ?thesis by (simp add: trim_def)
next
  case False
  then have "trim (replace_ws z) \<noteq> []" by (simp add: normalize_def)
  then have "\<not> is_ws (hd (normalize z))" "\<not> is_ws (last (normalize z))"
    unfolding normalize_def by (rule trim_hd, rule trim_last)
  then show ?thesis using trim_append_clean [OF False, of "[]"] by auto
qed

lemma filter_dropWhile_ws:
  "filter (\<lambda>c. \<not> is_ws c) (dropWhile is_ws cs) = filter (\<lambda>c. \<not> is_ws c) cs"
  by (induction cs) auto

lemma replace_ws_content:
  "filter (\<lambda>c. \<not> is_ws c) (replace_ws s) = filter (\<lambda>c. \<not> is_ws c) s"
  by (induction s rule: replace_ws.induct) (auto simp: filter_dropWhile_ws)

lemma normalize_content:
  "filter (\<lambda>c. \<not> is_ws c) (normalize s) = filter (\<lambda>c. \<not> is_ws c) s"
proof -
  have "filter (\<lambda>c. \<not> is_ws c) (trim t) = filter (\<lambda>c. \<not> is_ws c) t" for t
    unfolding trim_def
    by (simp only: rev_filter [symmetric] filter_dropWhile_ws rev_rev_ident)
  then show ?thesis by (simp add: normalize_def replace_ws_content)
qed

lemma replace_ws_only_SP: "c \<in> set (replace_ws s) \<Longrightarrow> is_ws c \<Longrightarrow> c = SP"
proof (induction s rule: replace_ws.induct)
  case 1
  then show ?case by simp
next
  case (2 d ds)
  then show ?case by (cases "is_ws d") auto
qed

lemma replace_ws_no_run:
  "replace_ws s = a @ x # y # b \<Longrightarrow> \<not> (is_ws x \<and> is_ws y)"
proof (induction s arbitrary: a rule: replace_ws.induct)
  case 1
  then show ?case by simp
next
  case (2 c cs)
  show ?case
  proof (cases "is_ws c")
    case True
    let ?r = "replace_ws (dropWhile is_ws cs)"
    have st: "dropWhile is_ws ?r = ?r" by (rule replace_ws_start) simp
    have eq: "SP # ?r = a @ x # y # b" using "2.prems" True by simp
    show ?thesis
    proof (cases a)
      case Nil
      then have r: "?r = y # b" using eq by simp
      from st have "?r = [] \<or> \<not> is_ws (hd ?r)" by (simp only: dropWhile_eq_self_iff)
      then have "\<not> is_ws y" unfolding r by simp
      then show ?thesis by simp
    next
      case (Cons a0 a')
      then have "?r = a' @ x # y # b" using eq by simp
      then show ?thesis using "2.IH"(1) [OF True] by blast
    qed
  next
    case False
    have eq: "c # replace_ws cs = a @ x # y # b" using "2.prems" False by simp
    show ?thesis
    proof (cases a)
      case Nil
      then show ?thesis using eq False by simp
    next
      case (Cons a0 a')
      then have "replace_ws cs = a' @ x # y # b" using eq by simp
      then show ?thesis using "2.IH"(2) [OF False] by blast
    qed
  qed
qed

lemma normalize_shape:
  "(c \<in> set (normalize z) \<and> is_ws c \<longrightarrow> c = SP)
   \<and> (normalize z = a @ x # y # b \<longrightarrow> \<not> (is_ws x \<and> is_ws y))
   \<and> (normalize z \<noteq> [] \<longrightarrow> \<not> is_ws (hd (normalize z)) \<and> \<not> is_ws (last (normalize z)))"
proof -
  have "c \<in> set (replace_ws (normalize z)) \<Longrightarrow> is_ws c \<Longrightarrow> c = SP"
    by (rule replace_ws_only_SP)
  moreover have "replace_ws (normalize z) = a @ x # y # b \<Longrightarrow> \<not> (is_ws x \<and> is_ws y)"
    by (rule replace_ws_no_run)
  moreover have "normalize z \<noteq> [] \<Longrightarrow> \<not> is_ws (hd (normalize z)) \<and> \<not> is_ws (last (normalize z))"
    unfolding normalize_def using trim_hd trim_last by blast
  ultimately show ?thesis unfolding normalize_fix by blast
qed

lemma partial_neq_final: "utf16 ''partial'' \<noteq> utf16 ''final''"
  by (simp add: utf16_def)

lemma reconcile_partial:
  "reconcile (Json (Some (utf16 ''partial'')) (Some vs)) c =
     Inr (c\<lparr>currentPartial := trim (join [SP] vs)\<rparr>,
          Some (displayed (completeTranscript c) (trim (join [SP] vs))))"
  by (simp add: reconcile_def Let_def)

lemma reconcile_final:
  "reconcile (Json (Some (utf16 ''final'')) (Some vs)) c =
     Inr (c\<lparr>completeTranscript := normalize (completeTranscript c @ SP # join [SP] vs),
            currentPartial := []\<rparr>,
          Some (normalize (completeTranscript c @ SP # join [SP] vs)))"
  using partial_neq_final by (simp add: reconcile_def Let_def)

lemma reconcile_committed_grows:
  assumes "reconcile ev c = Inr (c1, out)" and "completeTranscript c = normalize z"
  shows "\<exists>zs. completeTranscript c1 = completeTranscript c @ zs"
    and "\<exists>z1. completeTranscript c1 = normalize z1"
  using assms normalize_extends [of z]
  by (auto simp: reconcile_def Let_def split: inbound.splits option.splits if_splits)

lemmas str_evals = reconcile_def displayed_def normalize_def trim_def is_ws_def utf16_def

lemma reconcile_sequence:
  "reconcile (Json (Some (utf16 ''partial'')) (Some [utf16 ''hi''])) (new_closure 44100)
     = Inr ((new_closure 44100)\<lparr>currentPartial := utf16 ''hi''\<rparr>, Some (utf16 ''hi''))"
  "reconcile (Json (Some (utf16 ''partial'')) (Some [utf16 ''hi'', utf16 ''there''])) ((new_closure 44100)\<lparr>currentPartial := utf16 ''hi''\<rparr>)
     = Inr ((new_closure 44100)\<lparr>currentPartial := utf16 ''hi there''\<rparr>, Some (utf16 ''hi there''))"
  "reconcile (Json (Some (utf16 ''final'')) (Some [utf16 ''hi'', utf16 ''there''])) ((new_closure 44100)\<lparr>currentPartial := utf16 ''hi there''\<rparr>)
     = Inr ((new_closure 44100)\<lparr>completeTranscript := utf16 ''hi there''\<rparr>, Some (utf16 ''hi there''))"
  "reconcile (Json (Some (utf16 ''partial'')) (Some [utf16 ''next''])) ((new_closure 44100)\<lparr>completeTranscript := utf16 ''hi there''\<rparr>)
     = Inr ((new_closure 44100)\<lparr>completeTranscript := utf16 ''hi there'', currentPartial := utf16 ''next''\<rparr>, Some (utf16 ''hi there next''))"
  by (simp_all add: str_evals new_closure_def Let_def)

text \<open>
  C6. The text that the reconciler hands to \<open>updateTranscriptionUI\<close> for an event is
  the committed text, a space and the pending text, as they are after the event, with
  every run of white space replaced by one space and the white space at both ends
  removed; normalising the result again changes nothing. With committed \<open>a  b\<close> and
  pending \<open> c\<close> the result is \<open>a b c\<close>.
\<close>

theorem displayed_spec:
  "(reconcile ev c = Inr (c1, Some text) \<longrightarrow>
      text = displayed (completeTranscript c1) (currentPartial c1))
   \<and> displayed committed pending = trim (replace_ws (committed @ SP # pending))
   \<and> replace_ws (displayed committed pending) = displayed committed pending
   \<and> trim (displayed committed pending) = displayed committed pending
   \<and> displayed (utf16 ''a  b'') (utf16 '' c'') = utf16 ''a b c''"
proof -
  have "text = displayed (completeTranscript c1) (currentPartial c1)"
    if "reconcile ev c = Inr (c1, Some text)"
    using that
    by (auto simp: reconcile_def Let_def displayed_def normalize_normalize_SP
        split: inbound.splits option.splits if_splits)
  moreover have "displayed (utf16 ''a  b'') (utf16 '' c'') = utf16 ''a b c''"
    by (simp add: displayed_def normalize_def trim_def utf16_def is_ws_def)
  ultimately show ?thesis
    by (simp add: displayed_def normalize_fix trim_normalize) (simp add: normalize_def)
qed

theorem displayed_spec_witness:
  "reconcile (Json (Some (utf16 ''final'')) (Some [utf16 ''hi'', utf16 ''there'']))
       ((new_closure 44100)\<lparr>currentPartial := utf16 ''hi there''\<rparr>)
     = Inr ((new_closure 44100)\<lparr>completeTranscript := utf16 ''hi there''\<rparr>, Some (utf16 ''hi there''))
   \<and> utf16 ''hi there'' =
       displayed (completeTranscript ((new_closure 44100)\<lparr>completeTranscript := utf16 ''hi there''\<rparr>))
         (currentPartial ((new_closure 44100)\<lparr>completeTranscript := utf16 ''hi there''\<rparr>))"
proof -
  have r: "reconcile (Json (Some (utf16 ''final'')) (Some [utf16 ''hi'', utf16 ''there'']))
       ((new_closure 44100)\<lparr>currentPartial := utf16 ''hi there''\<rparr>)
     = Inr ((new_closure 44100)\<lparr>completeTranscript := utf16 ''hi there''\<rparr>, Some (utf16 ''hi there''))"
    by (rule reconcile_sequence(3))
  from displayed_spec [of "Json (Some (utf16 ''final'')) (Some [utf16 ''hi'', utf16 ''there''])"
      "(new_closure 44100)\<lparr>currentPartial := utf16 ''hi there''\<rparr>"
      "(new_closure 44100)\<lparr>completeTranscript := utf16 ''hi there''\<rparr>" "utf16 ''hi there''"] r
  have "utf16 ''hi there'' =
       displayed (completeTranscript ((new_closure 44100)\<lparr>completeTranscript := utf16 ''hi there''\<rparr>))
         (currentPartial ((new_closure 44100)\<lparr>completeTranscript := utf16 ''hi there''\<rparr>))"
    by blast
  with r show ?thesis by blast
qed

section \<open>The reconciler on a sequence of events\<close>

lemma shown_with_container:
  "map (\<lambda>evs. container (run (StartCapture (Some [7]) 44100 # SocketOpen 0 # evs) (init_world (Some []) None)))
     [[SocketMessage 0 (Json (Some (utf16 ''partial'')) (Some [utf16 ''hi'']))],
      [SocketMessage 0 (Json (Some (utf16 ''partial'')) (Some [utf16 ''hi''])),
       SocketMessage 0 (Json (Some (utf16 ''partial'')) (Some [utf16 ''hi'', utf16 ''there'']))],
      [SocketMessage 0 (Json (Some (utf16 ''partial'')) (Some [utf16 ''hi''])),
       SocketMessage 0 (Json (Some (utf16 ''partial'')) (Some [utf16 ''hi'', utf16 ''there''])),
       SocketMessage 0 (Json (Some (utf16 ''final'')) (Some [utf16 ''hi'', utf16 ''there'']))],
      [SocketMessage 0 (Json (Some (utf16 ''partial'')) (Some [utf16 ''hi''])),
       SocketMessage 0 (Json (Some (utf16 ''partial'')) (Some [utf16 ''hi'', utf16 ''there''])),
       SocketMessage 0 (Json (Some (utf16 ''final'')) (Some [utf16 ''hi'', utf16 ''there''])),
       SocketMessage 0 (Json (Some (utf16 ''partial'')) (Some [utf16 ''next'']))]]
   = [Some (utf16 ''hi''), Some (utf16 ''hi there''), Some (utf16 ''hi there''), Some (utf16 ''hi there next'')]"
  by (simp add: evals str_evals updateTranscriptionUI_def)

text \<open>
  C3. In a page without the element \<open>transcription-container\<close>, the first call of
  \<open>updateTranscriptionUI\<close> appends a new element and then throws: after the first
  partial event the container is empty and nothing is stored, although the reconciler
  has computed \<open>hi\<close>. From the second event on the container shows the values
  \<open>hi there\<close>, \<open>hi there\<close> and \<open>hi there next\<close>.
\<close>

theorem first_update_lost:
  "map (\<lambda>evs. container (run (StartCapture (Some [7]) 44100 # SocketOpen 0 # evs) (init_world None None)))
     [[SocketMessage 0 (Json (Some (utf16 ''partial'')) (Some [utf16 ''hi'']))],
      [SocketMessage 0 (Json (Some (utf16 ''partial'')) (Some [utf16 ''hi''])),
       SocketMessage 0 (Json (Some (utf16 ''partial'')) (Some [utf16 ''hi'', utf16 ''there'']))],
      [SocketMessage 0 (Json (Some (utf16 ''partial'')) (Some [utf16 ''hi''])),
       SocketMessage 0 (Json (Some (utf16 ''partial'')) (Some [utf16 ''hi'', utf16 ''there''])),
       SocketMessage 0 (Json (Some (utf16 ''final'')) (Some [utf16 ''hi'', utf16 ''there'']))],
      [SocketMessage 0 (Json (Some (utf16 ''partial'')) (Some [utf16 ''hi''])),
       SocketMessage 0 (Json (Some (utf16 ''partial'')) (Some [utf16 ''hi'', utf16 ''there''])),
       SocketMessage 0 (Json (Some (utf16 ''final'')) (Some [utf16 ''hi'', utf16 ''there''])),
       SocketMessage 0 (Json (Some (utf16 ''partial'')) (Some [utf16 ''next'']))]]
   = [Some [], Some (utf16 ''hi there''), Some (utf16 ''hi there''), Some (utf16 ''hi there next'')]
   \<and> currentTranscription (run [StartCapture (Some [7]) 44100, SocketOpen 0,
         SocketMessage 0 (Json (Some (utf16 ''partial'')) (Some [utf16 ''hi'']))] (init_world None None)) = None
   \<and> updateTranscriptionUI (utf16 ''hi'') (init_world None None)
       = ((init_world None None)\<lparr>container := Some []\<rparr>, Some TypeError)"
  by (simp add: evals str_evals updateTranscriptionUI_def)

end
